theory Spec2Isabelle
  imports Main "HOL-Library.Sublist"
begin

section \<open>Exceptions and Python primitives\<close>

text \<open>
  The exceptions a call into \<^verbatim>\<open>scales.py\<close> can end with. \<open>InvalidTonicError\<close> and
  \<open>InvalidDegreeError\<close> are the two classes of the module and carry their message;
  \<open>KeyError\<close> and \<open>IndexError\<close> are what a dict subscript and a sequence subscript raise;
  \<open>AttributeError\<close> is what reading an attribute that was never assigned raises;
  \<open>NoteNameError\<close> is the failure of the Note constructor.
\<close>

datatype error =
    InvalidTonicError string
  | InvalidDegreeError string
  | KeyError
  | IndexError
  | AttributeError
  | NoteNameError string

text \<open>\<^verbatim>\<open>d[k]\<close> on a dict: the value, or KeyError.\<close>

definition subscript :: "('k \<rightharpoonup> 'v) \<Rightarrow> 'k \<Rightarrow> error + 'v" where
  "subscript d k = (case d k of None \<Rightarrow> Inl KeyError | Some v \<Rightarrow> Inr v)"

text \<open>\<^verbatim>\<open>xs[i]\<close> on a list or tuple with a non-negative index: the element, or IndexError.\<close>

definition index :: "'a list \<Rightarrow> nat \<Rightarrow> error + 'a" where
  "index xs i = (if i < length xs then Inr (xs ! i) else Inl IndexError)"

text \<open>\<^verbatim>\<open>sub in s\<close> on strings: \<open>sub\<close> occurs in \<open>s\<close> as a contiguous substring.\<close>

fun str_contains :: "string \<Rightarrow> string \<Rightarrow> bool" where
  "str_contains sub [] = (sub = [])"
| "str_contains sub (c # cs) = (prefix sub (c # cs) \<or> str_contains sub cs)"

text \<open>
  \<^verbatim>\<open>s.split(' ', 1)\<close>: at most one split, at the first space. Without a space the result
  is the one-element list of the whole string.
\<close>

definition split_once :: "string \<Rightarrow> string list" where
  "split_once s =
     (case dropWhile (\<lambda>c. c \<noteq> CHR '' '') s of
        [] \<Rightarrow> [s]
      | _ # rest \<Rightarrow> [takeWhile (\<lambda>c. c \<noteq> CHR '' '') s, rest])"

text \<open>
  A list comprehension \<^verbatim>\<open>[f(x) for x in xs]\<close> whose body may raise: the elements are
  computed from left to right and the first exception ends the comprehension.
\<close>

fun comprehension :: "('a \<Rightarrow> error + 'b) \<Rightarrow> 'a list \<Rightarrow> error + 'b list" where
  "comprehension f [] = Inr []"
| "comprehension f (x # xs) =
     (case f x of
        Inl e \<Rightarrow> Inl e
      | Inr y \<Rightarrow> (case comprehension f xs of Inl e \<Rightarrow> Inl e | Inr ys \<Rightarrow> Inr (y # ys)))"

section \<open>The Note primitive\<close>

text \<open>
  Modelled from the spec: the class \<^verbatim>\<open>Note\<close> of \<^verbatim>\<open>musictheorpy.notes\<close>, which
  \<^verbatim>\<open>scales.py\<close> imports and which is not among the sources. The spec gives a Note the
  identity (letter A-G, accidental among none, sharp, flat, double-sharp, double-flat), makes
  two Notes equal iff letter and accidental match exactly, and has it expose
  \<^verbatim>\<open>new(name)\<close> and a display name. A name is the letter followed by nothing,
  \<^verbatim>\<open>#\<close>, \<^verbatim>\<open>b\<close>, \<^verbatim>\<open>##\<close> or \<^verbatim>\<open>bb\<close>; any other string has no Note
  and the constructor raises.
\<close>

datatype letter_name = LA | LB | LC | LD | LE | LF | LG

datatype accidental_kind = Natural | Sharp | Flat | DoubleSharp | DoubleFlat

record note_obj =
  letter :: letter_name
  accidental :: accidental_kind

fun letter_of_char :: "char \<Rightarrow> letter_name option" where
  "letter_of_char c =
     (if c = CHR ''A'' then Some LA else if c = CHR ''B'' then Some LB
      else if c = CHR ''C'' then Some LC else if c = CHR ''D'' then Some LD
      else if c = CHR ''E'' then Some LE else if c = CHR ''F'' then Some LF
      else if c = CHR ''G'' then Some LG else None)"

fun char_of_letter :: "letter_name \<Rightarrow> char" where
  "char_of_letter LA = CHR ''A''"
| "char_of_letter LB = CHR ''B''"
| "char_of_letter LC = CHR ''C''"
| "char_of_letter LD = CHR ''D''"
| "char_of_letter LE = CHR ''E''"
| "char_of_letter LF = CHR ''F''"
| "char_of_letter LG = CHR ''G''"

fun accidental_of_string :: "string \<Rightarrow> accidental_kind option" where
  "accidental_of_string s =
     (if s = [] then Some Natural else if s = ''#'' then Some Sharp
      else if s = ''b'' then Some Flat else if s = ''##'' then Some DoubleSharp
      else if s = ''bb'' then Some DoubleFlat else None)"

fun string_of_accidental :: "accidental_kind \<Rightarrow> string" where
  "string_of_accidental Natural = []"
| "string_of_accidental Sharp = ''#''"
| "string_of_accidental Flat = ''b''"
| "string_of_accidental DoubleSharp = ''##''"
| "string_of_accidental DoubleFlat = ''bb''"

text \<open>Modelled from the spec: the constructor \<^verbatim>\<open>Note(name)\<close> of the absent class.\<close>

definition Note :: "string \<Rightarrow> error + note_obj" where
  "Note name =
     (case name of
        [] \<Rightarrow> Inl (NoteNameError name)
      | c # rest \<Rightarrow>
          (case letter_of_char c of
             None \<Rightarrow> Inl (NoteNameError name)
           | Some l \<Rightarrow>
               (case accidental_of_string rest of
                  None \<Rightarrow> Inl (NoteNameError name)
                | Some a \<Rightarrow> Inr \<lparr>letter = l, accidental = a\<rparr>)))"

text \<open>Modelled from the spec: the attribute \<^verbatim>\<open>qualified_name\<close> (the display name) of a Note.\<close>

definition qualified_name :: "note_obj \<Rightarrow> string" where
  "qualified_name n = char_of_letter (letter n) # string_of_accidental (accidental n)"

section \<open>The tables of the module\<close>

text \<open>
  \<^verbatim>\<open>SCALE_INTERVALS\<close> and \<^verbatim>\<open>INTERVAL_NOTE_PAIRS\<close> come from
  \<^verbatim>\<open>musictheorpy.interval_utils\<close>, which is not among the sources: they are parameters of
  the model. The first maps a quality to its interval pattern, the second a tonic to the
  note name at each interval; the type \<open>'i\<close> of an interval is left open.
\<close>

record 'i tables =
  SCALE_INTERVALS :: "string \<rightharpoonup> 'i list"
  INTERVAL_NOTE_PAIRS :: "string \<rightharpoonup> ('i \<rightharpoonup> string)"

definition VALID_SCALE_NAMES :: "string \<rightharpoonup> string list" where
  "VALID_SCALE_NAMES = map_of
     [(''MAJOR'', [''A'', ''B'', ''C'', ''D'', ''E'', ''F'', ''G'',
                   ''C#'', ''F#'',
                   ''Ab'', ''Bb'', ''Cb'', ''Db'', ''Eb'', ''Gb'']),
      (''MINOR'', [''A'', ''B'', ''C'', ''D'', ''E'', ''F'', ''G'',
                   ''A#'', ''D#'', ''G#'', ''C#'', ''F#'',
                   ''Ab'', ''Eb'', ''Bb''])]"

definition SHARPS :: "string list" where
  "SHARPS = [''F#'', ''C#'', ''G#'', ''D#'', ''A#'', ''E#'', ''B#'']"

definition FLATS :: "string list" where
  "FLATS = [''Bb'', ''Eb'', ''Ab'', ''Db'', ''Gb'', ''Cb'', ''Fb'']"

definition KEY_SIGNATURE_NUMBERS :: "string \<rightharpoonup> int" where
  "KEY_SIGNATURE_NUMBERS = map_of
     [(''C MAJOR'', 0), (''G MAJOR'', 1), (''D MAJOR'', 2), (''A MAJOR'', 3), (''E MAJOR'', 4),
      (''B MAJOR'', 5), (''F# MAJOR'', 6), (''C# MAJOR'', 7),
      (''F MAJOR'', -1), (''Bb MAJOR'', -2), (''Eb MAJOR'', -3), (''Ab MAJOR'', -4),
      (''Db MAJOR'', -5), (''Gb MAJOR'', -6), (''Cb MAJOR'', -7),
      (''A MINOR'', 0), (''E MINOR'', 1), (''B MINOR'', 2), (''F# MINOR'', 3), (''C# MINOR'', 4),
      (''G# MINOR'', 5), (''D# MINOR'', 6), (''A# MINOR'', 7),
      (''D MINOR'', -1), (''G MINOR'', -2), (''C MINOR'', -3), (''F MINOR'', -4),
      (''Bb MINOR'', -5), (''Eb MINOR'', -6), (''Ab MINOR'', -7)]"

text \<open>\<^verbatim>\<open>SHARPS[:k]\<close> is \<open>take k SHARPS\<close>.\<close>

definition KEY_SIGNATURES :: "int \<rightharpoonup> string list" where
  "KEY_SIGNATURES = map_of
     [(0, []), (1, take 1 SHARPS), (2, take 2 SHARPS), (3, take 3 SHARPS), (4, take 4 SHARPS),
      (5, take 5 SHARPS), (6, take 6 SHARPS), (7, take 7 SHARPS),
      (-1, take 1 FLATS), (-2, take 2 FLATS), (-3, take 3 FLATS), (-4, take 4 FLATS),
      (-5, take 5 FLATS), (-6, take 6 FLATS), (-7, take 7 FLATS)]"

section \<open>The functions of the module\<close>

text \<open>
  \<^verbatim>\<open>unpack_scale_name\<close>: the dict with the keys TONIC and QUALITY is a record.
  \<^verbatim>\<open>split_scale[1]\<close> raises IndexError when the name has no space.
\<close>

record unpacked =
  TONIC :: string
  QUALITY :: string

definition unpack_scale_name :: "string \<Rightarrow> error + unpacked" where
  "unpack_scale_name scale =
     (let split_scale = split_once scale in
      case index split_scale 0 of
        Inl e \<Rightarrow> Inl e
      | Inr tonic \<Rightarrow>
          (case index split_scale 1 of
             Inl e \<Rightarrow> Inl e
           | Inr quality \<Rightarrow> Inr \<lparr>TONIC = tonic, QUALITY = quality\<rparr>))"

definition invalid_tonic_message :: "string \<Rightarrow> string" where
  "invalid_tonic_message tonic =
     ''Invalid tonic: '' @ tonic @
     ''. It is possible that this tonic is a valid note name but that '' @
     ''building the desired scale from this note would result in a scale with an invalid '' @
     ''key signature.''"

definition validate_tonic :: "unpacked \<Rightarrow> error + unit" where
  "validate_tonic unpacked_scale_name =
     (case (if str_contains ''MINOR'' (QUALITY unpacked_scale_name)
            then subscript VALID_SCALE_NAMES ''MINOR''
            else subscript VALID_SCALE_NAMES ''MAJOR'') of
        Inl e \<Rightarrow> Inl e
      | Inr valid_tonics \<Rightarrow>
          if TONIC unpacked_scale_name \<notin> set valid_tonics
          then Inl (InvalidTonicError (invalid_tonic_message (TONIC unpacked_scale_name)))
          else Inr ())"

text \<open>
  \<^verbatim>\<open>build_scale\<close>: the pattern of the quality, then the comprehension of the note names
  (each element subscripts the table by the tonic, then by the interval), then the
  comprehension of the Notes.
\<close>

definition build_scale :: "'i tables \<Rightarrow> string \<Rightarrow> string \<Rightarrow> error + note_obj list" where
  "build_scale T tonic quality =
     (case subscript (SCALE_INTERVALS T) quality of
        Inl e \<Rightarrow> Inl e
      | Inr scale_intervals \<Rightarrow>
          (case comprehension
                  (\<lambda>interval.
                     case subscript (INTERVAL_NOTE_PAIRS T) tonic of
                       Inl e \<Rightarrow> Inl e
                     | Inr row \<Rightarrow> subscript row interval)
                  scale_intervals of
             Inl e \<Rightarrow> Inl e
           | Inr scale_note_names \<Rightarrow> comprehension Note scale_note_names))"

definition fetch_key_signature :: "string \<Rightarrow> string \<Rightarrow> error + string list" where
  "fetch_key_signature tonic quality =
     (let qualified_tonic =
            tonic @ (if str_contains ''MINOR'' quality then '' MINOR'' else '' MAJOR'') in
      case subscript KEY_SIGNATURE_NUMBERS qualified_tonic of
        Inl e \<Rightarrow> Inl e
      | Inr key_signature_number \<Rightarrow> subscript KEY_SIGNATURES key_signature_number)"

section \<open>The class Scale\<close>

text \<open>
  A Scale object is the record of its four attributes; an attribute that has not been
  assigned yet is \<open>None\<close>. \<open>new_object\<close> is the object \<^verbatim>\<open>__init__\<close> receives.
\<close>

record scale =
  self_tonic :: "string option"
  self_quality :: "string option"
  self_notes :: "note_obj list option"
  key_signature :: "string list option"

definition new_object :: scale where
  "new_object = \<lparr>self_tonic = None, self_quality = None, self_notes = None, key_signature = None\<rparr>"

text \<open>
  \<^verbatim>\<open>Scale.__init__\<close> with explicit state: it takes the object and returns it as the body
  left it, with the exception the body raised, if any.
\<close>

definition Scale_init :: "'i tables \<Rightarrow> string \<Rightarrow> scale \<Rightarrow> scale \<times> error option" where
  "Scale_init T scale_name self =
     (case unpack_scale_name scale_name of
        Inl e \<Rightarrow> (self, Some e)
      | Inr unpacked_scale_name \<Rightarrow>
          (case validate_tonic unpacked_scale_name of
             Inl e \<Rightarrow> (self, Some e)
           | Inr _ \<Rightarrow>
               (let self1 = self\<lparr>self_tonic := Some (TONIC unpacked_scale_name)\<rparr>;
                    self2 = self1\<lparr>self_quality := Some (QUALITY unpacked_scale_name)\<rparr>
                in case build_scale T (TONIC unpacked_scale_name) (QUALITY unpacked_scale_name) of
                     Inl e \<Rightarrow> (self2, Some e)
                   | Inr ns \<Rightarrow>
                       (let self3 = self2\<lparr>self_notes := Some ns\<rparr>
                        in case fetch_key_signature (TONIC unpacked_scale_name)
                                  (QUALITY unpacked_scale_name) of
                             Inl e \<Rightarrow> (self3, Some e)
                           | Inr ks \<Rightarrow> (self3\<lparr>key_signature := Some ks\<rparr>, None)))))"

text \<open>
  The expression \<^verbatim>\<open>Scale(scale_name)\<close>: a new object is initialised, and the caller gets
  it only if \<^verbatim>\<open>__init__\<close> returned.
\<close>

definition Scale :: "'i tables \<Rightarrow> string \<Rightarrow> error + scale" where
  "Scale T scale_name =
     (case Scale_init T scale_name new_object of
        (self, None) \<Rightarrow> Inr self
      | (self, Some e) \<Rightarrow> Inl e)"

text \<open>Reading an attribute of the object: AttributeError when it was never assigned.\<close>

definition getattr :: "'a option \<Rightarrow> error + 'a" where
  "getattr a = (case a of None \<Rightarrow> Inl AttributeError | Some v \<Rightarrow> Inr v)"

definition degree_names :: "string \<rightharpoonup> nat" where
  "degree_names = map_of
     [(''TONIC'', 0), (''SUPERTONIC'', 1), (''MEDIANT'', 2), (''SUBDOMINANT'', 3),
      (''DOMINANT'', 4), (''SUBMEDIANT'', 5), (''LEADING TONE'', 6)]"

text \<open>
  \<^verbatim>\<open>Scale.__getitem__\<close>. The \<^verbatim>\<open>try\<close> catches KeyError only, so an IndexError of
  \<^verbatim>\<open>self._notes[degree_number]\<close> passes through.
\<close>

definition getitem :: "scale \<Rightarrow> string \<Rightarrow> error + note_obj" where
  "getitem self degree =
     (case getattr (self_quality self) of
        Inl e \<Rightarrow> Inl e
      | Inr quality \<Rightarrow>
          if quality \<noteq> ''MAJOR'' \<and> \<not> str_contains ''MINOR'' quality
          then Inl (InvalidDegreeError ''Only major and minor scales are subscriptable'')
          else
            (case subscript degree_names degree of
               Inl _ \<Rightarrow> Inl (InvalidDegreeError (''Invalid degree name: '' @ degree))
             | Inr degree_number \<Rightarrow>
                 (case getattr (self_notes self) of
                    Inl e \<Rightarrow> Inl e
                  | Inr ns \<Rightarrow> index ns degree_number)))"

text \<open>
  \<^verbatim>\<open>Scale.__contains__\<close>: \<^verbatim>\<open>note in self._notes\<close> on a tuple compares the argument
  with each element; the equality of Notes is the one of the spec (letter and accidental).
\<close>

definition contains :: "scale \<Rightarrow> note_obj \<Rightarrow> error + bool" where
  "contains self n =
     (case getattr (self_notes self) of
        Inl e \<Rightarrow> Inl e
      | Inr ns \<Rightarrow> Inr (n \<in> set ns))"

text \<open>
  \<^verbatim>\<open>Scale.ascend\<close>, with the object after the call as second component: the body
  assigns nothing.
\<close>

definition ascend :: "scale \<Rightarrow> (error + string list) \<times> scale" where
  "ascend self =
     (case getattr (self_notes self) of
        Inl e \<Rightarrow> (Inl e, self)
      | Inr ns \<Rightarrow> (Inr (map qualified_name ns), self))"

section \<open>Sample tables\<close>

text \<open>
  Modelled from the spec: \<^verbatim>\<open>SCALE_INTERVALS\<close> and \<^verbatim>\<open>INTERVAL_NOTE_PAIRS\<close> are not
  among the sources. This is an excerpt in the shape the spec describes (a pattern of seven
  intervals for each of the four qualities, counted in semitones, and for a tonic the
  spelled note name at each interval), with the rows of C, G, F, C#, D, A and E. It serves to
  evaluate the model at concrete scale names.
\<close>

definition sample_tables :: "nat tables" where
  "sample_tables =
     \<lparr>SCALE_INTERVALS = map_of
        [(''MAJOR'', [0, 2, 4, 5, 7, 9, 11]),
         (''NATURAL MINOR'', [0, 2, 3, 5, 7, 8, 10]),
         (''HARMONIC MINOR'', [0, 2, 3, 5, 7, 8, 11]),
         (''MELODIC MINOR'', [0, 2, 3, 5, 7, 9, 11])],
      INTERVAL_NOTE_PAIRS = map_of
        [(''C'', map_of [(0, ''C''), (2, ''D''), (4, ''E''), (5, ''F''), (7, ''G''), (9, ''A''),
                         (11, ''B'')]),
         (''G'', map_of [(0, ''G''), (2, ''A''), (4, ''B''), (5, ''C''), (7, ''D''), (9, ''E''),
                         (11, ''F#'')]),
         (''F'', map_of [(0, ''F''), (2, ''G''), (4, ''A''), (5, ''Bb''), (7, ''C''), (9, ''D''),
                         (11, ''E'')]),
         (''C#'', map_of [(0, ''C#''), (2, ''D#''), (4, ''E#''), (5, ''F#''), (7, ''G#''),
                          (9, ''A#''), (11, ''B#'')]),
         (''D'', map_of [(0, ''D''), (2, ''E''), (4, ''F#''), (5, ''G''), (7, ''A''), (9, ''B''),
                         (11, ''C#'')]),
         (''A'', map_of [(0, ''A''), (2, ''B''), (3, ''C''), (4, ''C#''), (5, ''D''), (7, ''E''),
                         (8, ''F''), (9, ''F#''), (10, ''G''), (11, ''G#'')]),
         (''E'', map_of [(0, ''E''), (2, ''F#''), (3, ''G''), (4, ''G#''), (5, ''A''), (7, ''B''),
                         (8, ''C''), (9, ''C#''), (10, ''D''), (11, ''D#'')])]\<rparr>"

section \<open>Notions used to state the properties\<close>

text \<open>
  The list of tonics that \<^verbatim>\<open>validate_tonic\<close> selects for a quality: the entry MINOR of
  \<^verbatim>\<open>VALID_SCALE_NAMES\<close> when the quality contains MINOR, the entry MAJOR otherwise.
\<close>

definition legal_tonics :: "string \<Rightarrow> string list" where
  "legal_tonics quality =
     (case VALID_SCALE_NAMES (if str_contains ''MINOR'' quality then ''MINOR'' else ''MAJOR'') of
        None \<Rightarrow> []
      | Some valid_tonics \<Rightarrow> valid_tonics)"

text \<open>
  Modelled from the spec: what the spec promises of the absent tables
  \<^verbatim>\<open>SCALE_INTERVALS\<close> and \<^verbatim>\<open>INTERVAL_NOTE_PAIRS\<close> for one tonic and quality. The
  quality has an interval pattern of seven intervals; the table has a row for the tonic; the
  first interval of the pattern resolves to the tonic itself (index 0 of a scale is its
  tonic); every interval of the pattern resolves to a name that spells a Note.
\<close>

definition interval_table_ok :: "'i tables \<Rightarrow> string \<Rightarrow> string \<Rightarrow> bool" where
  "interval_table_ok T tonic quality =
     (case SCALE_INTERVALS T quality of
        None \<Rightarrow> False
      | Some scale_intervals \<Rightarrow>
          length scale_intervals = 7 \<and>
          (case INTERVAL_NOTE_PAIRS T tonic of
             None \<Rightarrow> False
           | Some row \<Rightarrow>
               row (hd scale_intervals) = Some tonic \<and>
               list_all
                 (\<lambda>interval.
                    case row interval of
                      None \<Rightarrow> False
                    | Some note_name \<Rightarrow> (case Note note_name of Inl _ \<Rightarrow> False | Inr _ \<Rightarrow> True))
                 scale_intervals))"

text \<open>
  Modelled from the spec: every interval pattern of the absent table
  \<^verbatim>\<open>SCALE_INTERVALS\<close> has seven intervals (the spec: a Scale's notes sequence always has
  length 7).
\<close>

definition seven_note_patterns :: "'i tables \<Rightarrow> bool" where
  "seven_note_patterns T =
     (\<forall>quality scale_intervals.
        SCALE_INTERVALS T quality = Some scale_intervals \<longrightarrow> length scale_intervals = 7)"

text \<open>
  Modelled from the spec: in the absent tables, the first interval of a pattern resolves
  from a tonic to the tonic itself (the spec: index 0 of the notes sequence is the tonic).
\<close>

definition tonic_first :: "'i tables \<Rightarrow> bool" where
  "tonic_first T =
     (\<forall>quality scale_intervals tonic row.
        SCALE_INTERVALS T quality = Some scale_intervals \<longrightarrow>
        INTERVAL_NOTE_PAIRS T tonic = Some row \<longrightarrow>
        scale_intervals \<noteq> [] \<longrightarrow>
        row (hd scale_intervals) = Some tonic)"

section \<open>Facts about the primitives and the constructor\<close>

subsection \<open>Strings\<close>

text \<open>
  \<open>str_contains\<close> is the substring relation. A name unpacks iff it has a space, and then
  into what precedes the first space and what follows it. The strings of the model are byte
  strings; the module compares and searches ASCII text only.
\<close>

lemma str_contains_sublist: "str_contains sub s = sublist sub s"
  by (induction s) (auto simp: sublist_Cons_right)

lemma split_once_space:
  "CHR '' '' \<notin> set t \<Longrightarrow> split_once (t @ CHR '' '' # q) = [t, q]"
proof -
  assume t: "CHR '' '' \<notin> set t"
  then have "\<forall>c\<in>set t. c \<noteq> CHR '' ''" by auto
  then have "dropWhile (\<lambda>c. c \<noteq> CHR '' '') (t @ CHR '' '' # q) = CHR '' '' # q"
    and "takeWhile (\<lambda>c. c \<noteq> CHR '' '') (t @ CHR '' '' # q) = t"
    by (simp_all add: dropWhile_append2 takeWhile_append2)
  then show ?thesis by (simp add: split_once_def)
qed

lemma split_once_no_space:
  "CHR '' '' \<notin> set s \<Longrightarrow> split_once s = [s]"
proof -
  assume "CHR '' '' \<notin> set s"
  then have d: "dropWhile (\<lambda>c. c \<noteq> CHR '' '') s = []"
    by (auto simp: dropWhile_eq_Nil_conv)
  show ?thesis unfolding split_once_def d by simp
qed

lemma unpack_scale_name_space:
  "CHR '' '' \<notin> set t \<Longrightarrow> unpack_scale_name (t @ CHR '' '' # q) = Inr \<lparr>TONIC = t, QUALITY = q\<rparr>"
  by (simp add: unpack_scale_name_def split_once_space index_def)

subsection \<open>Validation and the constructor\<close>

text \<open>
  The two lists of \<^verbatim>\<open>VALID_SCALE_NAMES\<close>, \<^verbatim>\<open>validate_tonic\<close> as a membership test, and
  the constructor as the sequence of its four fallible steps.
\<close>

lemma legal_tonics_eq:
  "legal_tonics quality =
     (if str_contains ''MINOR'' quality
      then [''A'', ''B'', ''C'', ''D'', ''E'', ''F'', ''G'', ''A#'', ''D#'', ''G#'', ''C#'', ''F#'',
            ''Ab'', ''Eb'', ''Bb'']
      else [''A'', ''B'', ''C'', ''D'', ''E'', ''F'', ''G'', ''C#'', ''F#'',
            ''Ab'', ''Bb'', ''Cb'', ''Db'', ''Eb'', ''Gb''])"
  by (simp add: legal_tonics_def VALID_SCALE_NAMES_def)

lemma validate_tonic_eq:
  "validate_tonic u =
     (if TONIC u \<in> set (legal_tonics (QUALITY u)) then Inr ()
      else Inl (InvalidTonicError (invalid_tonic_message (TONIC u))))"
  by (simp add: validate_tonic_def legal_tonics_def subscript_def VALID_SCALE_NAMES_def)

lemma unpack_scale_name_Inr:
  "unpack_scale_name name = Inr u \<longleftrightarrow>
     name = TONIC u @ CHR '' '' # QUALITY u \<and> CHR '' '' \<notin> set (TONIC u)"
proof (cases "CHR '' '' \<in> set name")
  case False
  then have "unpack_scale_name name = Inl IndexError"
    by (simp add: unpack_scale_name_def split_once_no_space index_def)
  with False show ?thesis by auto
next
  case True
  then obtain t q where nm: "name = t @ CHR '' '' # q" and t: "CHR '' '' \<notin> set t"
    by (meson split_list_first)
  have eq: "unpack_scale_name name = Inr \<lparr>TONIC = t, QUALITY = q\<rparr>"
    using nm t by (simp add: unpack_scale_name_space)
  show ?thesis
  proof
    assume "unpack_scale_name name = Inr u"
    with eq have "u = \<lparr>TONIC = t, QUALITY = q\<rparr>" by simp
    with nm t show "name = TONIC u @ CHR '' '' # QUALITY u \<and> CHR '' '' \<notin> set (TONIC u)"
      by simp
  next
    assume "name = TONIC u @ CHR '' '' # QUALITY u \<and> CHR '' '' \<notin> set (TONIC u)"
    then show "unpack_scale_name name = Inr u"
      by (simp add: unpack_scale_name_space)
  qed
qed

lemma Scale_eq:
  "Scale T name =
     (case unpack_scale_name name of
        Inl e \<Rightarrow> Inl e
      | Inr u \<Rightarrow>
          (case validate_tonic u of
             Inl e \<Rightarrow> Inl e
           | Inr _ \<Rightarrow>
               (case build_scale T (TONIC u) (QUALITY u) of
                  Inl e \<Rightarrow> Inl e
                | Inr ns \<Rightarrow>
                    (case fetch_key_signature (TONIC u) (QUALITY u) of
                       Inl e \<Rightarrow> Inl e
                     | Inr ks \<Rightarrow>
                         Inr \<lparr>self_tonic = Some (TONIC u), self_quality = Some (QUALITY u),
                              self_notes = Some ns, key_signature = Some ks\<rparr>))))"
  by (simp add: Scale_def Scale_init_def new_object_def Let_def split: sum.splits)

lemma legal_tonic_no_space: "t \<in> set (legal_tonics q) \<Longrightarrow> CHR '' '' \<notin> set t"
  unfolding legal_tonics_eq by (cases "str_contains ''MINOR'' q") auto

subsection \<open>Notes and comprehensions\<close>

text \<open>
  A display name spells the Note it comes from, and a name that spells a Note is the display
  name of that Note. A comprehension succeeds iff its body succeeds on every element.
\<close>

lemma Note_qualified_name: "Note (qualified_name n) = Inr n"
  by (cases n; cases "letter n"; cases "accidental n") (simp_all add: Note_def qualified_name_def)

lemma comprehension_Inr_D:
  "comprehension f xs = Inr ys \<Longrightarrow> list_all2 (\<lambda>x y. f x = Inr y) xs ys"
  by (induction xs arbitrary: ys) (auto split: sum.splits)

lemma comprehension_Inr_I:
  "list_all2 (\<lambda>x y. f x = Inr y) xs ys \<Longrightarrow> comprehension f xs = Inr ys"
  by (induction xs ys rule: list_all2_induct) simp_all

lemma Note_Inr_name: "Note nm = Inr n \<Longrightarrow> qualified_name n = nm"
proof -
  assume a: "Note nm = Inr n"
  then obtain c rest l a where nm: "nm = c # rest" and l: "letter_of_char c = Some l"
    and ac: "accidental_of_string rest = Some a" and n: "n = \<lparr>letter = l, accidental = a\<rparr>"
    by (auto simp: Note_def split: list.splits option.splits)
  have "char_of_letter l = c" using l by (auto split: if_splits)
  moreover have "string_of_accidental a = rest" using ac by (auto split: if_splits)
  ultimately show ?thesis using nm n by (simp add: qualified_name_def)
qed

subsection \<open>Evaluation and the shape of a constructed Scale\<close>

text \<open>The unfolding rules that evaluate a construction at a concrete name.\<close>

lemmas scale_eval =
  Scale_def Scale_init_def new_object_def unpack_scale_name_def split_once_def index_def
  validate_tonic_def subscript_def VALID_SCALE_NAMES_def build_scale_def Note_def
  fetch_key_signature_def KEY_SIGNATURE_NUMBERS_def KEY_SIGNATURES_def SHARPS_def FLATS_def

lemma invalid_tonic_message_carries: "sublist tonic (invalid_tonic_message tonic)"
  unfolding invalid_tonic_message_def by (rule sublist_appendI)

lemma Scale_InrD:
  assumes "Scale T name = Inr s"
  obtains u ns ks where "unpack_scale_name name = Inr u"
    and "TONIC u \<in> set (legal_tonics (QUALITY u))"
    and "build_scale T (TONIC u) (QUALITY u) = Inr ns"
    and "fetch_key_signature (TONIC u) (QUALITY u) = Inr ks"
    and "s = \<lparr>self_tonic = Some (TONIC u), self_quality = Some (QUALITY u),
               self_notes = Some ns, key_signature = Some ks\<rparr>"
  using assms unfolding Scale_eq validate_tonic_eq
  by (auto split: sum.splits if_splits)

lemma Scale_unpacked:
  assumes "unpack_scale_name name = Inr \<lparr>TONIC = t, QUALITY = q\<rparr>"
    and "Scale T name = Inr s"
  shows "\<exists>ns ks. t \<in> set (legal_tonics q) \<and> build_scale T t q = Inr ns
           \<and> fetch_key_signature t q = Inr ks
           \<and> s = \<lparr>self_tonic = Some t, self_quality = Some q,
                    self_notes = Some ns, key_signature = Some ks\<rparr>"
  using assms(2) unfolding Scale_eq assms(1) validate_tonic_eq
  by (auto split: sum.splits if_splits)

subsection \<open>Key signatures of the legal tonics\<close>

text \<open>
  The lookup succeeds for each of the 15 tonics of either list, and its result is empty for
  exactly one tonic of each list.
\<close>

lemmas key_signature_eval =
  fetch_key_signature_def subscript_def KEY_SIGNATURE_NUMBERS_def KEY_SIGNATURES_def
  SHARPS_def FLATS_def

lemma fetch_key_signature_major_empty:
  assumes "\<not> str_contains ''MINOR'' q" and "t \<in> set (legal_tonics q)"
  shows "(\<exists>ks. fetch_key_signature t q = Inr ks) \<and> (fetch_key_signature t q = Inr [] \<longleftrightarrow> t = ''C'')"
proof -
  from assms have "t = ''A'' \<or> t = ''B'' \<or> t = ''C'' \<or> t = ''D'' \<or> t = ''E'' \<or> t = ''F''
    \<or> t = ''G'' \<or> t = ''C#'' \<or> t = ''F#'' \<or> t = ''Ab'' \<or> t = ''Bb'' \<or> t = ''Cb''
    \<or> t = ''Db'' \<or> t = ''Eb'' \<or> t = ''Gb''"
    by (simp add: legal_tonics_eq)
  then show ?thesis
    using assms(1) by (elim disjE) (simp_all add: key_signature_eval)
qed

lemma fetch_key_signature_minor_empty:
  assumes "str_contains ''MINOR'' q" and "t \<in> set (legal_tonics q)"
  shows "(\<exists>ks. fetch_key_signature t q = Inr ks) \<and> (fetch_key_signature t q = Inr [] \<longleftrightarrow> t = ''A'')"
proof -
  from assms have "t = ''A'' \<or> t = ''B'' \<or> t = ''C'' \<or> t = ''D'' \<or> t = ''E'' \<or> t = ''F''
    \<or> t = ''G'' \<or> t = ''A#'' \<or> t = ''D#'' \<or> t = ''G#'' \<or> t = ''C#'' \<or> t = ''F#''
    \<or> t = ''Ab'' \<or> t = ''Eb'' \<or> t = ''Bb''"
    by (simp add: legal_tonics_eq)
  then show ?thesis
    using assms(1) by (elim disjE) (simp_all add: key_signature_eval)
qed

lemma unpack_legal:
  "t \<in> set (legal_tonics q) \<Longrightarrow>
     unpack_scale_name (t @ '' '' @ q) = Inr \<lparr>TONIC = t, QUALITY = q\<rparr>"
  by (simp add: legal_tonic_no_space unpack_scale_name_space)

subsection \<open>Degrees and built scales\<close>

text \<open>
  What a successful \<^verbatim>\<open>build_scale\<close> has read from the tables, and that it succeeds over
  tables that satisfy \<open>interval_table_ok\<close>.
\<close>

lemma degree_names_None:
  "degree \<notin> set [''TONIC'', ''SUPERTONIC'', ''MEDIANT'', ''SUBDOMINANT'', ''DOMINANT'',
                   ''SUBMEDIANT'', ''LEADING TONE''] \<Longrightarrow> degree_names degree = None"
  by (simp add: degree_names_def)

lemma build_scale_Inr:
  assumes "build_scale T t q = Inr ns"
  obtains ivs names where "SCALE_INTERVALS T q = Some ivs"
    and "length ns = length ivs"
    and "names = map qualified_name ns"
    and "list_all2 (\<lambda>n nm. Note nm = Inr n) ns names"
    and "ivs \<noteq> [] \<Longrightarrow> \<exists>row. INTERVAL_NOTE_PAIRS T t = Some row \<and> map row ivs = map Some names"
proof -
  from assms obtain ivs names where ivs: "SCALE_INTERVALS T q = Some ivs"
    and c1: "comprehension
               (\<lambda>interval. case subscript (INTERVAL_NOTE_PAIRS T) t of
                              Inl e \<Rightarrow> Inl e | Inr row \<Rightarrow> subscript row interval) ivs = Inr names"
    and c2: "comprehension Note names = Inr ns"
    by (auto simp: build_scale_def subscript_def split: option.splits sum.splits)
  from c2 have l2: "list_all2 (\<lambda>nm n. Note nm = Inr n) names ns"
    by (rule comprehension_Inr_D)
  then have names: "names = map qualified_name ns"
    by (induction rule: list_all2_induct) (simp_all add: Note_Inr_name)
  from c1 have l1: "list_all2 (\<lambda>interval nm.
      (case subscript (INTERVAL_NOTE_PAIRS T) t of
         Inl e \<Rightarrow> Inl e | Inr row \<Rightarrow> subscript row interval) = Inr nm) ivs names"
    by (rule comprehension_Inr_D)
  have len: "length ns = length ivs"
    using l1 l2 by (simp add: list_all2_lengthD)
  have row: "\<exists>row. INTERVAL_NOTE_PAIRS T t = Some row \<and> map row ivs = map Some names"
    if "ivs \<noteq> []"
  proof (cases "INTERVAL_NOTE_PAIRS T t")
    case None
    from that l1 obtain i rest nm nms where "ivs = i # rest" "names = nm # nms"
      by (cases ivs; cases names) auto
    with l1 None show ?thesis by (simp add: subscript_def)
  next
    case (Some row)
    with l1 have "list_all2 (\<lambda>interval nm. row interval = Some nm) ivs names"
      by (auto simp: subscript_def split: option.splits elim!: list_all2_mono)
    then have "map row ivs = map Some names"
      by (induction rule: list_all2_induct) simp_all
    with Some show ?thesis by simp
  qed
  from l2 have l2': "list_all2 (\<lambda>n nm. Note nm = Inr n) ns names"
    by (simp add: list_all2_conv_all_nth)
  show ?thesis using ivs len names l2' row by (rule that)
qed

lemma seven_note_patterns_sample: "seven_note_patterns sample_tables"
  by (auto simp: seven_note_patterns_def sample_tables_def split: if_splits)

lemma Note_letter: "Note nm = Inr n \<Longrightarrow> letter_of_char (hd nm) = Some (letter n)"
  by (auto simp: Note_def simp del: letter_of_char.simps accidental_of_string.simps
      split: list.splits option.splits)

lemma build_scale_ok:
  assumes "interval_table_ok T t q"
  obtains ns where "build_scale T t q = Inr ns" and "length ns = 7" and "Note t = Inr (ns ! 0)"
proof -
  from assms obtain ivs row where ivs: "SCALE_INTERVALS T q = Some ivs"
    and len: "length ivs = 7"
    and row: "INTERVAL_NOTE_PAIRS T t = Some row"
    and first: "row (hd ivs) = Some t"
    and all: "list_all (\<lambda>interval. case row interval of None \<Rightarrow> False
                | Some note_name \<Rightarrow> (case Note note_name of Inl _ \<Rightarrow> False | Inr _ \<Rightarrow> True)) ivs"
    by (auto simp: interval_table_ok_def split: option.splits)
  define names where "names = map (\<lambda>i. the (row i)) ivs"
  define ns where "ns = map (\<lambda>nm. projr (Note nm)) names"
  have each: "row i = Some (the (row i)) \<and> Note (the (row i)) = Inr (projr (Note (the (row i))))"
    if "i \<in> set ivs" for i
  proof -
    from all that have "case row i of None \<Rightarrow> False
        | Some note_name \<Rightarrow> (case Note note_name of Inl _ \<Rightarrow> False | Inr _ \<Rightarrow> True)"
      by (simp add: list_all_iff)
    then obtain nm where nm: "row i = Some nm"
      and "case Note nm of Inl _ \<Rightarrow> False | Inr _ \<Rightarrow> True"
      by (cases "row i") auto
    then obtain n where "Note nm = Inr n"
      by (cases "Note nm") auto
    with nm show ?thesis by simp
  qed
  have sub: "subscript row i = Inr (the (row i))" if "i \<in> set ivs" for i
  proof -
    from each [OF that] obtain nm where "row i = Some nm" by blast
    then show ?thesis by (simp add: subscript_def)
  qed
  have "list_all2 (\<lambda>interval nm.
      (case subscript (INTERVAL_NOTE_PAIRS T) t of
         Inl e \<Rightarrow> Inl e | Inr row \<Rightarrow> subscript row interval) = Inr nm) ivs names"
    using sub by (simp add: names_def list_all2_map2 list_all2_same subscript_def [of _ t] row)
  then have c1: "comprehension
      (\<lambda>interval. case subscript (INTERVAL_NOTE_PAIRS T) t of
                     Inl e \<Rightarrow> Inl e | Inr row \<Rightarrow> subscript row interval) ivs = Inr names"
    by (rule comprehension_Inr_I)
  have "list_all2 (\<lambda>nm n. Note nm = Inr n) names ns"
    using each by (simp add: ns_def names_def list_all2_map2 list_all2_map1 list_all2_same)
  then have c2: "comprehension Note names = Inr ns"
    by (rule comprehension_Inr_I)
  have b: "build_scale T t q = Inr ns"
    using ivs c1 c2 by (simp add: build_scale_def subscript_def)
  have l: "length ns = 7"
    using len by (simp add: ns_def names_def)
  from len have ne: "ivs \<noteq> []" by auto
  then have "hd ivs \<in> set ivs" by simp
  from each [OF this] first have "Note t = Inr (projr (Note t))" by simp
  moreover have "ns ! 0 = projr (Note t)"
    using ne first len by (simp add: ns_def names_def hd_conv_nth)
  ultimately have "Note t = Inr (ns ! 0)" by simp
  with b l show ?thesis by (rule that)
qed

lemma tonic_first_sample: "tonic_first sample_tables"
proof -
  have h: "hd ivs = 0 \<and> ivs \<noteq> []" if "SCALE_INTERVALS sample_tables q = Some ivs" for q ivs
    using that by (auto simp: sample_tables_def split: if_splits)
  have r: "row 0 = Some t" if "INTERVAL_NOTE_PAIRS sample_tables t = Some row" for t row
    using that by (auto simp: sample_tables_def split: if_splits)
  show ?thesis
    unfolding tonic_first_def using h r by metis
qed

lemma build_scale_tonic_first:
  assumes "build_scale T t q = Inr ns" and "seven_note_patterns T" and "tonic_first T"
  shows "length ns = 7 \<and> Note t = Inr (ns ! 0)"
proof -
  from assms(1) obtain ivs where ivs: "SCALE_INTERVALS T q = Some ivs"
    and len: "length ns = length ivs"
    and row: "ivs \<noteq> [] \<Longrightarrow>
      \<exists>row. INTERVAL_NOTE_PAIRS T t = Some row
            \<and> map row ivs = map Some (map qualified_name ns)"
    by (rule build_scale_Inr) blast
  from ivs assms(2) have seven: "length ivs = 7" by (simp add: seven_note_patterns_def)
  then have ne: "ivs \<noteq> []" by auto
  from row [OF ne] obtain row where r: "INTERVAL_NOTE_PAIRS T t = Some row"
    and m: "map row ivs = map Some (map qualified_name ns)"
    by blast
  from assms(3) ivs r ne have "row (hd ivs) = Some t"
    unfolding tonic_first_def by blast
  moreover from m ne len have "row (hd ivs) = Some (qualified_name (ns ! 0))"
    by (cases ivs; cases ns) auto
  ultimately have "qualified_name (ns ! 0) = t" by simp
  then have "Note t = Inr (ns ! 0)" using Note_qualified_name [of "ns ! 0"] by simp
  with len seven show ?thesis by simp
qed

section \<open>Validation of the tonic\<close>

text \<open>
  C1. Constructing a Scale from a name that unpacks into a tonic and a quality (the name is
  the tonic, a space and the quality, the tonic without a space) validates the
  tonic against the list selected by the quality: the minor list when the quality contains
  MINOR, the major list otherwise. A tonic outside the list makes \<^verbatim>\<open>validate_tonic\<close> and
  the construction fail with InvalidTonicError, whose message contains the tonic; a tonic in
  the list passes validation.
\<close>

theorem C1_validate_tonic:
  assumes "unpack_scale_name name = Inr u"
  shows "legal_tonics (QUALITY u) =
           (if str_contains ''MINOR'' (QUALITY u)
            then [''A'', ''B'', ''C'', ''D'', ''E'', ''F'', ''G'',
                  ''A#'', ''D#'', ''G#'', ''C#'', ''F#'', ''Ab'', ''Eb'', ''Bb'']
            else [''A'', ''B'', ''C'', ''D'', ''E'', ''F'', ''G'',
                  ''C#'', ''F#'', ''Ab'', ''Bb'', ''Cb'', ''Db'', ''Eb'', ''Gb''])
         \<and> (TONIC u \<notin> set (legal_tonics (QUALITY u)) \<longrightarrow>
              validate_tonic u = Inl (InvalidTonicError (invalid_tonic_message (TONIC u)))
              \<and> Scale T name = Inl (InvalidTonicError (invalid_tonic_message (TONIC u)))
              \<and> sublist (TONIC u) (invalid_tonic_message (TONIC u)))
         \<and> (TONIC u \<in> set (legal_tonics (QUALITY u)) \<longrightarrow> validate_tonic u = Inr ())"
  using assms
  by (simp add: Scale_eq validate_tonic_eq invalid_tonic_message_carries legal_tonics_eq)

theorem C1_validate_tonic_witness:
  "Scale sample_tables ''G# MAJOR'' = Inl (InvalidTonicError (invalid_tonic_message ''G#''))
   \<and> validate_tonic \<lparr>TONIC = ''G#'', QUALITY = ''HARMONIC MINOR''\<rparr> = Inr ()"
proof -
  have u1: "unpack_scale_name ''G# MAJOR'' = Inr \<lparr>TONIC = ''G#'', QUALITY = ''MAJOR''\<rparr>"
    by (simp add: unpack_scale_name_def split_once_def index_def)
  have u2: "unpack_scale_name ''G# HARMONIC MINOR'' =
              Inr \<lparr>TONIC = ''G#'', QUALITY = ''HARMONIC MINOR''\<rparr>"
    by (simp add: unpack_scale_name_def split_once_def index_def)
  have n1: "''G#'' \<notin> set (legal_tonics ''MAJOR'')"
    by (simp add: legal_tonics_eq)
  have n2: "''G#'' \<in> set (legal_tonics ''HARMONIC MINOR'')"
    by (simp add: legal_tonics_eq)
  from C1_validate_tonic [OF u1, of sample_tables] n1
  have "Scale sample_tables ''G# MAJOR'' = Inl (InvalidTonicError (invalid_tonic_message ''G#''))"
    by simp
  moreover from C1_validate_tonic [OF u2, of sample_tables] n2
  have "validate_tonic \<lparr>TONIC = ''G#'', QUALITY = ''HARMONIC MINOR''\<rparr> = Inr ()"
    by simp
  ultimately show ?thesis by simp
qed

section \<open>A quality without an interval pattern\<close>

text \<open>
  C10. The quality is never validated: when the tonic is in the list the quality selects and
  the quality is not a key of \<^verbatim>\<open>SCALE_INTERVALS\<close>, validation passes, \<^verbatim>\<open>build_scale\<close>
  fails with KeyError, and so does the construction; KeyError is neither InvalidTonicError nor
  InvalidDegreeError.
\<close>

theorem C10_quality_not_validated:
  assumes "unpack_scale_name name = Inr u"
    and "TONIC u \<in> set (legal_tonics (QUALITY u))"
    and "SCALE_INTERVALS T (QUALITY u) = None"
  shows "validate_tonic u = Inr ()
         \<and> build_scale T (TONIC u) (QUALITY u) = Inl KeyError
         \<and> Scale T name = Inl KeyError
         \<and> (\<forall>m. KeyError \<noteq> InvalidTonicError m \<and> KeyError \<noteq> InvalidDegreeError m)"
  using assms by (simp add: Scale_eq validate_tonic_eq build_scale_def subscript_def)

theorem C10_quality_not_validated_witness:
  "validate_tonic \<lparr>TONIC = ''C'', QUALITY = ''FOO''\<rparr> = Inr ()
   \<and> build_scale sample_tables ''C'' ''FOO'' = Inl KeyError
   \<and> Scale sample_tables ''C FOO'' = Inl KeyError"
proof -
  have u: "unpack_scale_name ''C FOO'' = Inr \<lparr>TONIC = ''C'', QUALITY = ''FOO''\<rparr>"
    by (simp add: unpack_scale_name_def split_once_def index_def)
  have l: "TONIC \<lparr>TONIC = ''C'', QUALITY = ''FOO''\<rparr>
             \<in> set (legal_tonics (QUALITY \<lparr>TONIC = ''C'', QUALITY = ''FOO''\<rparr>))"
    by (simp add: legal_tonics_eq)
  have t: "SCALE_INTERVALS sample_tables (QUALITY \<lparr>TONIC = ''C'', QUALITY = ''FOO''\<rparr>) = None"
    by (simp add: sample_tables_def)
  from C10_quality_not_validated [OF u l t] show ?thesis by simp
qed

section \<open>Key signatures\<close>

text \<open>
  C3. The key signature of Scale("G MAJOR") is [F#], that of Scale("F MAJOR") is [Bb], and
  that of Scale("C# MAJOR") is the seven sharps F#, C#, G#, D#, A#, E#, B#, of length 7.
  Whether these scales are constructed depends on the interval tables; whenever they are,
  this is their key signature.
\<close>

theorem C3_key_signature_examples:
  "(Scale T ''G MAJOR'' = Inr g \<longrightarrow> key_signature g = Some [''F#''])
   \<and> (Scale T ''F MAJOR'' = Inr f \<longrightarrow> key_signature f = Some [''Bb''])
   \<and> (Scale T ''C# MAJOR'' = Inr c \<longrightarrow>
        key_signature c = Some [''F#'', ''C#'', ''G#'', ''D#'', ''A#'', ''E#'', ''B#'']
        \<and> map_option length (key_signature c) = Some 7)"
proof -
  have uG: "unpack_scale_name ''G MAJOR'' = Inr \<lparr>TONIC = ''G'', QUALITY = ''MAJOR''\<rparr>"
    and uF: "unpack_scale_name ''F MAJOR'' = Inr \<lparr>TONIC = ''F'', QUALITY = ''MAJOR''\<rparr>"
    and uC: "unpack_scale_name ''C# MAJOR'' = Inr \<lparr>TONIC = ''C#'', QUALITY = ''MAJOR''\<rparr>"
    by (simp_all add: unpack_scale_name_def split_once_def index_def)
  have kG: "fetch_key_signature ''G'' ''MAJOR'' = Inr [''F#'']"
    and kF: "fetch_key_signature ''F'' ''MAJOR'' = Inr [''Bb'']"
    and kC: "fetch_key_signature ''C#'' ''MAJOR'' =
               Inr [''F#'', ''C#'', ''G#'', ''D#'', ''A#'', ''E#'', ''B#'']"
    by (simp_all add: key_signature_eval)
  have "key_signature g = Some [''F#'']" if "Scale T ''G MAJOR'' = Inr g"
    using Scale_unpacked [OF uG that] by (auto simp: kG)
  moreover have "key_signature f = Some [''Bb'']" if "Scale T ''F MAJOR'' = Inr f"
    using Scale_unpacked [OF uF that] by (auto simp: kF)
  moreover have "key_signature c = Some [''F#'', ''C#'', ''G#'', ''D#'', ''A#'', ''E#'', ''B#'']"
    if "Scale T ''C# MAJOR'' = Inr c"
    using Scale_unpacked [OF uC that] by (auto simp: kC)
  ultimately show ?thesis by simp
qed

theorem C3_key_signature_examples_witness:
  "map_sum id key_signature (Scale sample_tables ''G MAJOR'') = Inr (Some [''F#''])
   \<and> map_sum id key_signature (Scale sample_tables ''F MAJOR'') = Inr (Some [''Bb''])
   \<and> map_sum id key_signature (Scale sample_tables ''C# MAJOR'') =
       Inr (Some [''F#'', ''C#'', ''G#'', ''D#'', ''A#'', ''E#'', ''B#''])"
proof -
  obtain g where g: "Scale sample_tables ''G MAJOR'' = Inr g"
    by (simp add: scale_eval sample_tables_def)
  obtain f where f: "Scale sample_tables ''F MAJOR'' = Inr f"
    by (simp add: scale_eval sample_tables_def)
  obtain c where c: "Scale sample_tables ''C# MAJOR'' = Inr c"
    by (simp add: scale_eval sample_tables_def)
  from C3_key_signature_examples [of sample_tables g f c] g f c show ?thesis
    by simp
qed

text \<open>
  C4, amended. The key signature of a constructed Scale is empty iff the tonic is C and the
  quality does not contain MINOR, or the tonic is A and the quality contains MINOR. The claim
  as stated, "iff the scale is C major or A natural minor", fails at A harmonic minor, whose
  key signature is empty as well: the lookup uses the qualified tonic "A MINOR" for every
  quality that contains MINOR.
\<close>

theorem C4_empty_key_signature:
  assumes "Scale T name = Inr s"
  shows "\<exists>tonic quality.
           self_tonic s = Some tonic \<and> self_quality s = Some quality \<and>
           (key_signature s = Some [] \<longleftrightarrow>
              (tonic = ''C'' \<and> \<not> str_contains ''MINOR'' quality)
              \<or> (tonic = ''A'' \<and> str_contains ''MINOR'' quality))"
  using assms
proof (rule Scale_InrD)
  fix u ns ks
  assume l: "TONIC u \<in> set (legal_tonics (QUALITY u))"
    and k: "fetch_key_signature (TONIC u) (QUALITY u) = Inr ks"
    and s: "s = \<lparr>self_tonic = Some (TONIC u), self_quality = Some (QUALITY u),
                  self_notes = Some ns, key_signature = Some ks\<rparr>"
  show ?thesis
  proof (cases "str_contains ''MINOR'' (QUALITY u)")
    case True
    from fetch_key_signature_minor_empty [OF True l] k s True show ?thesis by simp
  next
    case False
    from fetch_key_signature_major_empty [OF False l] k s False show ?thesis by simp
  qed
qed

theorem C4_empty_key_signature_witness:
  "map_sum id key_signature (Scale sample_tables ''A MELODIC MINOR'') = Inr (Some [])
   \<and> map_sum id key_signature (Scale sample_tables ''D MAJOR'') \<noteq> Inr (Some [])"
proof -
  obtain a where a: "Scale sample_tables ''A MELODIC MINOR'' = Inr a"
    and ta: "self_tonic a = Some ''A''" and qa: "self_quality a = Some ''MELODIC MINOR''"
    by (simp add: scale_eval sample_tables_def)
  obtain d where d: "Scale sample_tables ''D MAJOR'' = Inr d"
    and td: "self_tonic d = Some ''D''" and qd: "self_quality d = Some ''MAJOR''"
    by (simp add: scale_eval sample_tables_def)
  from C4_empty_key_signature [OF a] ta qa have "key_signature a = Some []" by simp
  moreover from C4_empty_key_signature [OF d] td qd have "key_signature d \<noteq> Some []" by simp
  ultimately show ?thesis using a d by simp
qed

theorem C4_counterexample:
  "Scale sample_tables ''A HARMONIC MINOR'' =
     Inr \<lparr>self_tonic = Some ''A'', self_quality = Some ''HARMONIC MINOR'',
          self_notes = Some [\<lparr>letter = LA, accidental = Natural\<rparr>,
                             \<lparr>letter = LB, accidental = Natural\<rparr>,
                             \<lparr>letter = LC, accidental = Natural\<rparr>,
                             \<lparr>letter = LD, accidental = Natural\<rparr>,
                             \<lparr>letter = LE, accidental = Natural\<rparr>,
                             \<lparr>letter = LF, accidental = Natural\<rparr>,
                             \<lparr>letter = LG, accidental = Sharp\<rparr>],
          key_signature = Some []\<rparr>
   \<and> ''A HARMONIC MINOR'' \<noteq> ''C MAJOR'' \<and> ''A HARMONIC MINOR'' \<noteq> ''A NATURAL MINOR''"
  by (simp add: scale_eval sample_tables_def)

text \<open>
  C5. The key-signature lookup appends " MINOR" to the tonic when the quality contains MINOR
  and " MAJOR" otherwise, and returns the entry of \<^verbatim>\<open>KEY_SIGNATURES\<close> at the number
  \<^verbatim>\<open>KEY_SIGNATURE_NUMBERS\<close> gives that qualified tonic. So for a legal minor tonic, the
  Scales of any two qualities that contain MINOR (NATURAL MINOR, HARMONIC MINOR and MELODIC
  MINOR among them) have the same key signature, the one registry entry of the tonic followed
  by " MINOR".
\<close>

theorem C5_minor_variants_share_key_signature:
  "fetch_key_signature tonic quality =
     (case KEY_SIGNATURE_NUMBERS
             (tonic @ (if str_contains ''MINOR'' quality then '' MINOR'' else '' MAJOR'')) of
        None \<Rightarrow> Inl KeyError
      | Some number \<Rightarrow>
          (case KEY_SIGNATURES number of None \<Rightarrow> Inl KeyError | Some ks \<Rightarrow> Inr ks))
   \<and> (tonic \<in> set (legal_tonics ''NATURAL MINOR'') \<longrightarrow>
        str_contains ''MINOR'' q1 \<longrightarrow> str_contains ''MINOR'' q2 \<longrightarrow>
        Scale T (tonic @ '' '' @ q1) = Inr s1 \<longrightarrow>
        Scale T (tonic @ '' '' @ q2) = Inr s2 \<longrightarrow>
          key_signature s1 = key_signature s2
          \<and> (\<exists>number ks.
                KEY_SIGNATURE_NUMBERS (tonic @ '' MINOR'') = Some number
                \<and> KEY_SIGNATURES number = Some ks
                \<and> key_signature s1 = Some ks \<and> key_signature s2 = Some ks)
          \<and> fetch_key_signature tonic q1 = fetch_key_signature tonic ''NATURAL MINOR''
          \<and> fetch_key_signature tonic q1 = fetch_key_signature tonic ''HARMONIC MINOR''
          \<and> fetch_key_signature tonic q1 = fetch_key_signature tonic ''MELODIC MINOR'')"
proof -
  have lookup: "fetch_key_signature t q =
     (case KEY_SIGNATURE_NUMBERS
             (t @ (if str_contains ''MINOR'' q then '' MINOR'' else '' MAJOR'')) of
        None \<Rightarrow> Inl KeyError
      | Some number \<Rightarrow>
          (case KEY_SIGNATURES number of None \<Rightarrow> Inl KeyError | Some ks \<Rightarrow> Inr ks))"
    for t q
    by (simp add: fetch_key_signature_def subscript_def Let_def split: option.splits)
  have entry: "\<exists>number. KEY_SIGNATURE_NUMBERS (t @ '' MINOR'') = Some number
                 \<and> KEY_SIGNATURES number = Some ks"
    if "str_contains ''MINOR'' q" "fetch_key_signature t q = Inr ks" for t q ks
    using that unfolding lookup by (auto split: option.splits)
  have shared: "key_signature s1 = key_signature s2
          \<and> (\<exists>number ks.
                KEY_SIGNATURE_NUMBERS (tonic @ '' MINOR'') = Some number
                \<and> KEY_SIGNATURES number = Some ks
                \<and> key_signature s1 = Some ks \<and> key_signature s2 = Some ks)
          \<and> fetch_key_signature tonic q1 = fetch_key_signature tonic ''NATURAL MINOR''
          \<and> fetch_key_signature tonic q1 = fetch_key_signature tonic ''HARMONIC MINOR''
          \<and> fetch_key_signature tonic q1 = fetch_key_signature tonic ''MELODIC MINOR''"
    if l: "tonic \<in> set (legal_tonics ''NATURAL MINOR'')"
      and c1: "str_contains ''MINOR'' q1" and c2: "str_contains ''MINOR'' q2"
      and b1: "Scale T (tonic @ '' '' @ q1) = Inr s1"
      and b2: "Scale T (tonic @ '' '' @ q2) = Inr s2"
  proof -
    have l1: "tonic \<in> set (legal_tonics q1)" and l2: "tonic \<in> set (legal_tonics q2)"
      using l c1 c2 by (simp_all add: legal_tonics_eq)
    from Scale_unpacked [OF unpack_legal [OF l1] b1]
    obtain ks1 where k1: "fetch_key_signature tonic q1 = Inr ks1"
      and s1: "key_signature s1 = Some ks1"
      by auto
    from Scale_unpacked [OF unpack_legal [OF l2] b2]
    obtain ks2 where k2: "fetch_key_signature tonic q2 = Inr ks2"
      and s2: "key_signature s2 = Some ks2"
      by auto
    have "fetch_key_signature tonic q1 = fetch_key_signature tonic q2"
      using c1 c2 by (simp add: fetch_key_signature_def)
    with k1 k2 have same: "ks1 = ks2" by simp
    from entry [OF c1 k1] obtain number
      where "KEY_SIGNATURE_NUMBERS (tonic @ '' MINOR'') = Some number"
        "KEY_SIGNATURES number = Some ks1"
      by blast
    moreover have "fetch_key_signature tonic q1 = fetch_key_signature tonic ''NATURAL MINOR''"
      "fetch_key_signature tonic q1 = fetch_key_signature tonic ''HARMONIC MINOR''"
      "fetch_key_signature tonic q1 = fetch_key_signature tonic ''MELODIC MINOR''"
      using c1 by (simp_all add: fetch_key_signature_def)
    ultimately show ?thesis using s1 s2 same by simp
  qed
  from lookup shared show ?thesis by blast
qed

theorem C5_minor_variants_share_key_signature_witness:
  "map_sum id key_signature (Scale sample_tables ''E HARMONIC MINOR'') = Inr (Some [''F#''])
   \<and> map_sum id key_signature (Scale sample_tables ''E MELODIC MINOR'') = Inr (Some [''F#''])
   \<and> map_sum id key_signature (Scale sample_tables ''E NATURAL MINOR'') = Inr (Some [''F#''])
   \<and> fetch_key_signature ''E'' ''MAJOR'' = Inr [''F#'', ''C#'', ''G#'', ''D#'']
   \<and> Scale sample_tables ''E HARMONIC MINOR'' \<noteq> Scale sample_tables ''E MELODIC MINOR''"
proof -
  obtain h where h: "Scale sample_tables (''E'' @ '' '' @ ''HARMONIC MINOR'') = Inr h"
    by (simp add: scale_eval sample_tables_def)
  obtain m where m: "Scale sample_tables (''E'' @ '' '' @ ''MELODIC MINOR'') = Inr m"
    by (simp add: scale_eval sample_tables_def)
  obtain n where n: "Scale sample_tables (''E'' @ '' '' @ ''NATURAL MINOR'') = Inr n"
    by (simp add: scale_eval sample_tables_def)
  have l: "''E'' \<in> set (legal_tonics ''NATURAL MINOR'')"
    by (simp add: legal_tonics_eq)
  have c: "str_contains ''MINOR'' ''HARMONIC MINOR''" "str_contains ''MINOR'' ''MELODIC MINOR''"
    "str_contains ''MINOR'' ''NATURAL MINOR''"
    by simp_all
  have e: "KEY_SIGNATURE_NUMBERS (''E'' @ '' MINOR'') = Some 1"
    "KEY_SIGNATURES 1 = Some [''F#'']"
    by (simp_all add: KEY_SIGNATURE_NUMBERS_def KEY_SIGNATURES_def SHARPS_def)
  have hm: "key_signature h = Some [''F#''] \<and> key_signature m = Some [''F#'']"
    using C5_minor_variants_share_key_signature
      [of "''E''" "''MAJOR''" "''HARMONIC MINOR''" "''MELODIC MINOR''" sample_tables h m]
      l c h m e
    by auto
  have nm: "key_signature n = Some [''F#'']"
    using C5_minor_variants_share_key_signature
      [of "''E''" "''MAJOR''" "''NATURAL MINOR''" "''MELODIC MINOR''" sample_tables n m]
      l c n m e
    by auto
  have major: "fetch_key_signature ''E'' ''MAJOR'' = Inr [''F#'', ''C#'', ''G#'', ''D#'']"
    using C5_minor_variants_share_key_signature
      [of "''E''" "''MAJOR''" "''NATURAL MINOR''" "''MELODIC MINOR''" sample_tables n m]
    by (simp add: KEY_SIGNATURE_NUMBERS_def KEY_SIGNATURES_def SHARPS_def)
  have "Scale sample_tables ''E HARMONIC MINOR'' \<noteq> Scale sample_tables ''E MELODIC MINOR''"
    by (simp add: scale_eval sample_tables_def)
  then show ?thesis using h m n hm nm major by simp
qed

section \<open>Degree lookup\<close>

text \<open>
  C6. On a Scale object whose quality is MAJOR or contains MINOR, the lookup of each of the
  seven degree names TONIC, SUPERTONIC, MEDIANT, SUBDOMINANT, DOMINANT, SUBMEDIANT and LEADING
  TONE returns \<^verbatim>\<open>notes[i]\<close> for i = 0, ..., 6 (with seven notes, the notes themselves in
  order), and every other degree name, compared exactly, raises InvalidDegreeError with the
  name in the message. On a Scale object of any other quality every lookup raises
  InvalidDegreeError. The object is any with the attributes quality and notes assigned, as
  every constructed Scale has them.
\<close>

theorem C6_degree_lookup:
  assumes "self_quality s = Some quality" and "self_notes s = Some ns"
  shows "(quality = ''MAJOR'' \<or> str_contains ''MINOR'' quality \<longrightarrow>
            getitem s ''TONIC'' = index ns 0
            \<and> getitem s ''SUPERTONIC'' = index ns 1
            \<and> getitem s ''MEDIANT'' = index ns 2
            \<and> getitem s ''SUBDOMINANT'' = index ns 3
            \<and> getitem s ''DOMINANT'' = index ns 4
            \<and> getitem s ''SUBMEDIANT'' = index ns 5
            \<and> getitem s ''LEADING TONE'' = index ns 6
            \<and> (length ns = 7 \<longrightarrow>
                 map (getitem s) [''TONIC'', ''SUPERTONIC'', ''MEDIANT'', ''SUBDOMINANT'',
                                  ''DOMINANT'', ''SUBMEDIANT'', ''LEADING TONE''] = map Inr ns)
            \<and> (\<forall>degree.
                  degree \<notin> set [''TONIC'', ''SUPERTONIC'', ''MEDIANT'', ''SUBDOMINANT'',
                                 ''DOMINANT'', ''SUBMEDIANT'', ''LEADING TONE''] \<longrightarrow>
                  getitem s degree =
                    Inl (InvalidDegreeError (''Invalid degree name: '' @ degree))))
         \<and> (quality \<noteq> ''MAJOR'' \<and> \<not> str_contains ''MINOR'' quality \<longrightarrow>
              (\<forall>degree. getitem s degree =
                 Inl (InvalidDegreeError ''Only major and minor scales are subscriptable'')))"
proof -
  have other: "getitem s degree =
      Inl (InvalidDegreeError ''Only major and minor scales are subscriptable'')"
    if "quality \<noteq> ''MAJOR'' \<and> \<not> str_contains ''MINOR'' quality" for degree
    using that assms by (simp add: getitem_def getattr_def)
  have known: "getitem s degree = index ns i"
    if "quality = ''MAJOR'' \<or> str_contains ''MINOR'' quality" "degree_names degree = Some i"
    for degree i
    using that assms by (auto simp: getitem_def getattr_def subscript_def)
  have unknown: "getitem s degree = Inl (InvalidDegreeError (''Invalid degree name: '' @ degree))"
    if "quality = ''MAJOR'' \<or> str_contains ''MINOR'' quality" "degree_names degree = None"
    for degree
    using that assms by (auto simp: getitem_def getattr_def subscript_def)
  have d: "degree_names ''TONIC'' = Some 0" "degree_names ''SUPERTONIC'' = Some 1"
    "degree_names ''MEDIANT'' = Some 2" "degree_names ''SUBDOMINANT'' = Some 3"
    "degree_names ''DOMINANT'' = Some 4" "degree_names ''SUBMEDIANT'' = Some 5"
    "degree_names ''LEADING TONE'' = Some 6"
    by (simp_all add: degree_names_def)
  have seven: "map (index ns) [0, 1, 2, 3, 4, 5, 6] = map Inr ns" if "length ns = 7"
  proof -
    from that obtain a b c d e f g where "ns = [a, b, c, d, e, f, g]"
      by (auto simp: length_Suc_conv eval_nat_numeral)
    then show ?thesis by (simp add: index_def)
  qed
  show ?thesis
    using other known [OF _ d(1)] known [OF _ d(2)] known [OF _ d(3)] known [OF _ d(4)]
      known [OF _ d(5)] known [OF _ d(6)] known [OF _ d(7)] unknown degree_names_None seven
    by (auto simp del: set_simps)
qed

theorem C6_degree_lookup_witness:
  "map_sum id (\<lambda>s. [getitem s ''TONIC'', getitem s ''DOMINANT'', getitem s ''NONSENSE''])
     (Scale sample_tables ''D MAJOR'') =
     Inr [Inr \<lparr>letter = LD, accidental = Natural\<rparr>, Inr \<lparr>letter = LA, accidental = Natural\<rparr>,
          Inl (InvalidDegreeError ''Invalid degree name: NONSENSE'')]
   \<and> getitem \<lparr>self_tonic = Some ''C'', self_quality = Some ''WHOLE TONE'',
              self_notes = Some [], key_signature = Some []\<rparr> ''TONIC'' =
       Inl (InvalidDegreeError ''Only major and minor scales are subscriptable'')"
proof -
  obtain d ns where d: "Scale sample_tables ''D MAJOR'' = Inr d"
    and q: "self_quality d = Some ''MAJOR''" and n: "self_notes d = Some ns"
    and ns: "ns = [\<lparr>letter = LD, accidental = Natural\<rparr>, \<lparr>letter = LE, accidental = Natural\<rparr>,
                   \<lparr>letter = LF, accidental = Sharp\<rparr>, \<lparr>letter = LG, accidental = Natural\<rparr>,
                   \<lparr>letter = LA, accidental = Natural\<rparr>, \<lparr>letter = LB, accidental = Natural\<rparr>,
                   \<lparr>letter = LC, accidental = Sharp\<rparr>]"
    by (simp add: scale_eval sample_tables_def)
  have "getitem d ''TONIC'' = index ns 0" "getitem d ''DOMINANT'' = index ns 4"
    "getitem d ''NONSENSE'' = Inl (InvalidDegreeError (''Invalid degree name: '' @ ''NONSENSE''))"
    using C6_degree_lookup [OF q n] by simp_all
  then have one: "[getitem d ''TONIC'', getitem d ''DOMINANT'', getitem d ''NONSENSE''] =
     [Inr \<lparr>letter = LD, accidental = Natural\<rparr>, Inr \<lparr>letter = LA, accidental = Natural\<rparr>,
      Inl (InvalidDegreeError ''Invalid degree name: NONSENSE'')]"
    by (simp add: ns index_def)
  have two: "getitem \<lparr>self_tonic = Some ''C'', self_quality = Some ''WHOLE TONE'',
              self_notes = Some [], key_signature = Some []\<rparr> ''TONIC'' =
       Inl (InvalidDegreeError ''Only major and minor scales are subscriptable'')"
    using C6_degree_lookup [of "\<lparr>self_tonic = Some ''C'', self_quality = Some ''WHOLE TONE'',
              self_notes = Some [], key_signature = Some []\<rparr>" "''WHOLE TONE''" "[]"]
    by simp
  show ?thesis using d one two by simp
qed

section \<open>Construction\<close>

text \<open>
  C7, amended. A construction has one of three outcomes. It succeeds: \<^verbatim>\<open>__init__\<close> returns
  with the four attributes assigned and the invariants holding: the tonic is legal for the
  quality, the notes are those of \<^verbatim>\<open>build_scale\<close>, the key signature is that of
  \<^verbatim>\<open>fetch_key_signature\<close> and is empty iff the tonic is C and the quality does not contain
  MINOR or the tonic is A and the quality contains MINOR, and, over interval tables as the
  spec describes them, there are seven notes and the note at index 0 is the Note of the
  tonic. Or unpacking or validation fails before any attribute is assigned. Or
  \<^verbatim>\<open>build_scale\<close> fails, after the tonic and the quality have been assigned and nothing
  else. In both failures the caller gets the exception and no object. The claim as stated,
  "or it fails before any attribute is set", does not hold for the third outcome, and the
  invariant on the empty key signature holds in the form above, not as "C major or A natural
  minor".
\<close>

theorem C7_construction_outcomes:
  "(\<exists>s t q ns ks.
      Scale_init T name new_object = (s, None) \<and> Scale T name = Inr s
      \<and> s = \<lparr>self_tonic = Some t, self_quality = Some q, self_notes = Some ns,
              key_signature = Some ks\<rparr>
      \<and> unpack_scale_name name = Inr \<lparr>TONIC = t, QUALITY = q\<rparr>
      \<and> t \<in> set (legal_tonics q)
      \<and> build_scale T t q = Inr ns \<and> fetch_key_signature t q = Inr ks
      \<and> (ks = [] \<longleftrightarrow>
            (t = ''C'' \<and> \<not> str_contains ''MINOR'' q) \<or> (t = ''A'' \<and> str_contains ''MINOR'' q))
      \<and> (seven_note_patterns T \<and> tonic_first T \<longrightarrow>
            length ns = 7 \<and> Note t = Inr (ns ! 0)
            \<and> letter_of_char (hd t) = Some (letter (ns ! 0))))
   \<or> (\<exists>e. Scale_init T name new_object = (new_object, Some e) \<and> Scale T name = Inl e
          \<and> (unpack_scale_name name = Inl e
              \<or> (\<exists>u. unpack_scale_name name = Inr u \<and> validate_tonic u = Inl e)))
   \<or> (\<exists>e t q.
          Scale_init T name new_object =
            (\<lparr>self_tonic = Some t, self_quality = Some q, self_notes = None,
              key_signature = None\<rparr>, Some e)
          \<and> Scale T name = Inl e
          \<and> unpack_scale_name name = Inr \<lparr>TONIC = t, QUALITY = q\<rparr>
          \<and> t \<in> set (legal_tonics q)
          \<and> build_scale T t q = Inl e)"
proof (cases "unpack_scale_name name")
  case (Inl e)
  then show ?thesis by (simp add: Scale_def Scale_init_def)
next
  case (Inr u)
  then have u: "unpack_scale_name name = Inr \<lparr>TONIC = TONIC u, QUALITY = QUALITY u\<rparr>" by simp
  show ?thesis
  proof (cases "TONIC u \<in> set (legal_tonics (QUALITY u))")
    case False
    then show ?thesis using Inr by (simp add: Scale_def Scale_init_def validate_tonic_eq)
  next
    case legal: True
    then obtain ks where ks: "fetch_key_signature (TONIC u) (QUALITY u) = Inr ks"
      and empty: "ks = [] \<longleftrightarrow>
            (TONIC u = ''C'' \<and> \<not> str_contains ''MINOR'' (QUALITY u))
            \<or> (TONIC u = ''A'' \<and> str_contains ''MINOR'' (QUALITY u))"
      using fetch_key_signature_major_empty [of "QUALITY u" "TONIC u"]
        fetch_key_signature_minor_empty [of "QUALITY u" "TONIC u"]
      by (cases "str_contains ''MINOR'' (QUALITY u)") auto
    show ?thesis
    proof (cases "build_scale T (TONIC u) (QUALITY u)")
      case (Inl e)
      have "Scale_init T name new_object =
              (\<lparr>self_tonic = Some (TONIC u), self_quality = Some (QUALITY u), self_notes = None,
                key_signature = None\<rparr>, Some e)"
        using Inr legal Inl by (simp add: Scale_init_def validate_tonic_eq new_object_def)
      moreover have "Scale T name = Inl e"
        using Inr legal Inl by (simp add: Scale_eq validate_tonic_eq)
      ultimately show ?thesis using u legal Inl by blast
    next
      case built: (Inr ns)
      have init: "Scale_init T name new_object =
              (\<lparr>self_tonic = Some (TONIC u), self_quality = Some (QUALITY u), self_notes = Some ns,
                key_signature = Some ks\<rparr>, None)"
        using Inr legal built ks
        by (simp add: Scale_init_def validate_tonic_eq new_object_def)
      have scale: "Scale T name =
              Inr \<lparr>self_tonic = Some (TONIC u), self_quality = Some (QUALITY u),
                   self_notes = Some ns, key_signature = Some ks\<rparr>"
        using Inr legal built ks
        by (simp add: Scale_eq validate_tonic_eq)
      have inv: "length ns = 7 \<and> Note (TONIC u) = Inr (ns ! 0)
            \<and> letter_of_char (hd (TONIC u)) = Some (letter (ns ! 0))"
        if "seven_note_patterns T \<and> tonic_first T"
      proof -
        from build_scale_tonic_first [OF built] that
        have "length ns = 7 \<and> Note (TONIC u) = Inr (ns ! 0)" by blast
        then show ?thesis using Note_letter [of "TONIC u" "ns ! 0"] by simp
      qed
      have "\<exists>s t q ns ks.
          Scale_init T name new_object = (s, None) \<and> Scale T name = Inr s
          \<and> s = \<lparr>self_tonic = Some t, self_quality = Some q, self_notes = Some ns,
                  key_signature = Some ks\<rparr>
          \<and> unpack_scale_name name = Inr \<lparr>TONIC = t, QUALITY = q\<rparr>
          \<and> t \<in> set (legal_tonics q)
          \<and> build_scale T t q = Inr ns \<and> fetch_key_signature t q = Inr ks
          \<and> (ks = [] \<longleftrightarrow>
                (t = ''C'' \<and> \<not> str_contains ''MINOR'' q) \<or> (t = ''A'' \<and> str_contains ''MINOR'' q))
          \<and> (seven_note_patterns T \<and> tonic_first T \<longrightarrow>
                length ns = 7 \<and> Note t = Inr (ns ! 0)
                \<and> letter_of_char (hd t) = Some (letter (ns ! 0)))"
        using init scale u legal built ks empty inv by blast
      then show ?thesis by (rule disjI1)
    qed
  qed
qed

theorem C7_construction_outcomes_witness:
  "Scale sample_tables ''D MAJOR'' = Inr (fst (Scale_init sample_tables ''D MAJOR'' new_object))
   \<and> snd (Scale_init sample_tables ''D MAJOR'' new_object) = None
   \<and> map_sum id (\<lambda>s. map_option (\<lambda>ns. (length ns, ns ! 0)) (self_notes s))
       (Scale sample_tables ''D MAJOR'') = Inr (Some (7, \<lparr>letter = LD, accidental = Natural\<rparr>))
   \<and> map_sum id key_signature (Scale sample_tables ''D MAJOR'') \<noteq> Inr (Some [])"
proof -
  have n: "snd (Scale_init sample_tables ''D MAJOR'' new_object) = None"
    by (simp add: scale_eval sample_tables_def)
  have u: "unpack_scale_name ''D MAJOR'' = Inr \<lparr>TONIC = ''D'', QUALITY = ''MAJOR''\<rparr>"
    by (simp add: unpack_scale_name_def split_once_def index_def)
  have d: "Note ''D'' = Inr \<lparr>letter = LD, accidental = Natural\<rparr>"
    by (simp add: Note_def)
  from C7_construction_outcomes [of sample_tables "''D MAJOR''"]
  consider (ok) s t q ns ks where "Scale sample_tables ''D MAJOR'' = Inr s"
      "s = \<lparr>self_tonic = Some t, self_quality = Some q, self_notes = Some ns,
            key_signature = Some ks\<rparr>"
      "unpack_scale_name ''D MAJOR'' = Inr \<lparr>TONIC = t, QUALITY = q\<rparr>"
      "ks = [] \<longleftrightarrow>
         (t = ''C'' \<and> \<not> str_contains ''MINOR'' q) \<or> (t = ''A'' \<and> str_contains ''MINOR'' q)"
      "seven_note_patterns sample_tables \<and> tonic_first sample_tables \<longrightarrow>
         length ns = 7 \<and> Note t = Inr (ns ! 0)"
    | (failed) s e where "Scale_init sample_tables ''D MAJOR'' new_object = (s, Some e)"
    by blast
  then show ?thesis
  proof cases
    case ok
    from ok(3) u have tq: "t = ''D''" "q = ''MAJOR''" by simp_all
    from ok(5) seven_note_patterns_sample tonic_first_sample tq d
    have "length ns = 7" "ns ! 0 = \<lparr>letter = LD, accidental = Natural\<rparr>" by simp_all
    moreover from ok(4) tq have "ks \<noteq> []" by simp
    moreover from ok(1) n have "fst (Scale_init sample_tables ''D MAJOR'' new_object) = s"
      by (simp add: Scale_def split: prod.splits option.splits)
    ultimately show ?thesis using ok(1,2) n by simp
  next
    case failed
    with n show ?thesis by simp
  qed
qed

theorem C7_counterexample:
  "Scale_init sample_tables ''C FOO'' new_object =
     (\<lparr>self_tonic = Some ''C'', self_quality = Some ''FOO'', self_notes = None,
       key_signature = None\<rparr>, Some KeyError)
   \<and> \<lparr>self_tonic = Some ''C'', self_quality = Some ''FOO'', self_notes = None,
       key_signature = None\<rparr> \<noteq> new_object
   \<and> map_sum id (\<lambda>s. (self_quality s, key_signature s))
       (Scale sample_tables ''A HARMONIC MINOR'') = Inr (Some ''HARMONIC MINOR'', Some [])"
  by (simp add: scale_eval sample_tables_def)

text \<open>
  C2. For a tonic in the list of legal tonics of the quality (the 15 major tonics for MAJOR,
  the 15 minor tonics for a quality that contains MINOR), over interval tables that hold what
  the spec promises for this tonic and quality, the construction succeeds, the notes sequence
  has length 7, and the note at index 0 is the Note of the tonic, so it has the letter of the
  tonic.
\<close>

theorem C2_legal_scales_build:
  assumes "tonic \<in> set (legal_tonics quality)"
    and "interval_table_ok T tonic quality"
  shows "length (legal_tonics quality) = 15
         \<and> (\<exists>s ns. Scale T (tonic @ '' '' @ quality) = Inr s
               \<and> self_tonic s = Some tonic \<and> self_quality s = Some quality
               \<and> self_notes s = Some ns \<and> length ns = 7
               \<and> Note tonic = Inr (ns ! 0)
               \<and> letter_of_char (hd tonic) = Some (letter (ns ! 0)))"
proof -
  from assms(2) obtain ns where b: "build_scale T tonic quality = Inr ns"
    and l: "length ns = 7" and n: "Note tonic = Inr (ns ! 0)"
    by (rule build_scale_ok)
  from assms(1) obtain ks where k: "fetch_key_signature tonic quality = Inr ks"
    using fetch_key_signature_major_empty [of quality tonic]
      fetch_key_signature_minor_empty [of quality tonic]
    by blast
  have "Scale T (tonic @ '' '' @ quality) =
          Inr \<lparr>self_tonic = Some tonic, self_quality = Some quality,
               self_notes = Some ns, key_signature = Some ks\<rparr>"
    using assms(1) b k unpack_legal [OF assms(1)]
    by (simp add: Scale_eq validate_tonic_eq)
  moreover have "length (legal_tonics quality) = 15"
    by (simp add: legal_tonics_eq)
  ultimately show ?thesis using l n Note_letter [OF n] by simp
qed

theorem C2_legal_scales_build_witness:
  "map_sum id (\<lambda>s. map_option (\<lambda>ns. (length ns, letter (ns ! 0))) (self_notes s))
     (Scale sample_tables ''C# MAJOR'') = Inr (Some (7, LC))
   \<and> map_sum id (\<lambda>s. map_option (\<lambda>ns. (length ns, letter (ns ! 0))) (self_notes s))
     (Scale sample_tables ''A HARMONIC MINOR'') = Inr (Some (7, LA))"
proof -
  have l1: "''C#'' \<in> set (legal_tonics ''MAJOR'')"
    and l2: "''A'' \<in> set (legal_tonics ''HARMONIC MINOR'')"
    by (simp_all add: legal_tonics_eq)
  have t1: "interval_table_ok sample_tables ''C#'' ''MAJOR''"
    and t2: "interval_table_ok sample_tables ''A'' ''HARMONIC MINOR''"
    by (simp_all add: interval_table_ok_def sample_tables_def Note_def)
  from C2_legal_scales_build [OF l1 t1] C2_legal_scales_build [OF l2 t2]
  show ?thesis by auto
qed

section \<open>Enumeration and membership\<close>

text \<open>
  C8. For a constructed Scale, over interval tables whose patterns all have seven intervals,
  \<^verbatim>\<open>ascend\<close> returns the qualified names of the notes in the order of the notes sequence,
  which are the names the table gives for the intervals of the pattern, in the order of the
  pattern; there are exactly 7; the object after the call is the object before it, so a
  second call returns the same and the notes are unchanged.
\<close>

theorem C8_ascend:
  assumes "Scale T name = Inr s" and "seven_note_patterns T"
  shows "\<exists>ns names.
           self_notes s = Some ns
           \<and> ascend s = (Inr names, s)
           \<and> names = map qualified_name ns
           \<and> length names = 7
           \<and> ascend (snd (ascend s)) = ascend s
           \<and> self_notes (snd (ascend s)) = Some ns
           \<and> (\<exists>tonic quality scale_intervals row.
                 self_tonic s = Some tonic \<and> self_quality s = Some quality
                 \<and> SCALE_INTERVALS T quality = Some scale_intervals
                 \<and> INTERVAL_NOTE_PAIRS T tonic = Some row
                 \<and> map row scale_intervals = map Some names)"
  using assms(1)
proof (rule Scale_InrD)
  fix u ns ks
  assume b: "build_scale T (TONIC u) (QUALITY u) = Inr ns"
    and s: "s = \<lparr>self_tonic = Some (TONIC u), self_quality = Some (QUALITY u),
                  self_notes = Some ns, key_signature = Some ks\<rparr>"
  from b obtain ivs where ivs: "SCALE_INTERVALS T (QUALITY u) = Some ivs"
    and len: "length ns = length ivs"
    and row: "ivs \<noteq> [] \<Longrightarrow>
      \<exists>row. INTERVAL_NOTE_PAIRS T (TONIC u) = Some row
            \<and> map row ivs = map Some (map qualified_name ns)"
    by (rule build_scale_Inr) blast
  from ivs assms(2) have seven: "length ivs = 7" by (simp add: seven_note_patterns_def)
  then have "ivs \<noteq> []" by auto
  from row [OF this] obtain row where "INTERVAL_NOTE_PAIRS T (TONIC u) = Some row"
    "map row ivs = map Some (map qualified_name ns)"
    by blast
  with s ivs len seven show ?thesis by (simp add: ascend_def getattr_def)
qed

theorem C8_ascend_witness:
  "map_sum id (\<lambda>s. ascend s = (Inr [''D'', ''E'', ''F#'', ''G'', ''A'', ''B'', ''C#''], s))
     (Scale sample_tables ''D MAJOR'') = Inr True"
proof -
  obtain d where d: "Scale sample_tables ''D MAJOR'' = Inr d"
    and n: "self_notes d =
      Some [\<lparr>letter = LD, accidental = Natural\<rparr>, \<lparr>letter = LE, accidental = Natural\<rparr>,
            \<lparr>letter = LF, accidental = Sharp\<rparr>, \<lparr>letter = LG, accidental = Natural\<rparr>,
            \<lparr>letter = LA, accidental = Natural\<rparr>, \<lparr>letter = LB, accidental = Natural\<rparr>,
            \<lparr>letter = LC, accidental = Sharp\<rparr>]"
    by (simp add: scale_eval sample_tables_def)
  from C8_ascend [OF d seven_note_patterns_sample] n
  have "ascend d = (Inr [''D'', ''E'', ''F#'', ''G'', ''A'', ''B'', ''C#''], d)"
    by (auto simp: qualified_name_def)
  with d show ?thesis by simp
qed

text \<open>
  C9. For a constructed Scale and every Note, the membership test is true iff some Note of
  the notes sequence equals the argument; every name that \<^verbatim>\<open>ascend\<close> returns spells a
  Note, and that Note is contained in the scale.
\<close>

theorem C9_membership:
  assumes "Scale T name = Inr s"
  shows "\<exists>ns names.
           self_notes s = Some ns
           \<and> (\<forall>n. contains s n = Inr (\<exists>m\<in>set ns. m = n))
           \<and> fst (ascend s) = Inr names
           \<and> (\<forall>nm\<in>set names. \<exists>n. Note nm = Inr n \<and> contains s n = Inr True)"
  using assms
proof (rule Scale_InrD)
  fix u ns ks
  assume s: "s = \<lparr>self_tonic = Some (TONIC u), self_quality = Some (QUALITY u),
                  self_notes = Some ns, key_signature = Some ks\<rparr>"
  have 1: "self_notes s = Some ns" using s by simp
  have 2: "contains s n = Inr (\<exists>m\<in>set ns. m = n)" for n
    using 1 by (simp add: contains_def getattr_def)
  have 3: "fst (ascend s) = Inr (map qualified_name ns)"
    using 1 by (simp add: ascend_def getattr_def)
  have 4: "\<exists>n. Note nm = Inr n \<and> contains s n = Inr True"
    if "nm \<in> set (map qualified_name ns)" for nm
  proof -
    from that obtain m where "m \<in> set ns" "nm = qualified_name m" by auto
    then have "Note nm = Inr m \<and> contains s m = Inr True"
      using 2 by (simp add: Note_qualified_name)
    then show ?thesis ..
  qed
  from 1 2 3 4 show ?thesis by blast
qed

theorem C9_membership_witness:
  "map_sum id (\<lambda>s. [contains s \<lparr>letter = LF, accidental = Sharp\<rparr>,
                     contains s \<lparr>letter = LF, accidental = Natural\<rparr>])
     (Scale sample_tables ''D MAJOR'') = Inr [Inr True, Inr False]"
proof -
  obtain d where d: "Scale sample_tables ''D MAJOR'' = Inr d"
    and n: "self_notes d =
      Some [\<lparr>letter = LD, accidental = Natural\<rparr>, \<lparr>letter = LE, accidental = Natural\<rparr>,
            \<lparr>letter = LF, accidental = Sharp\<rparr>, \<lparr>letter = LG, accidental = Natural\<rparr>,
            \<lparr>letter = LA, accidental = Natural\<rparr>, \<lparr>letter = LB, accidental = Natural\<rparr>,
            \<lparr>letter = LC, accidental = Sharp\<rparr>]"
    by (simp add: scale_eval sample_tables_def)
  from C9_membership [OF d] n
  have "contains d \<lparr>letter = LF, accidental = Sharp\<rparr> = Inr True"
    "contains d \<lparr>letter = LF, accidental = Natural\<rparr> = Inr False"
    by auto
  with d show ?thesis by simp
qed

end
